theory Spec2Isabelle
  imports Main "HOL-Library.Word"
begin

section \<open>The process descriptor of the chart package\<close>

text \<open>
  A shallow embedding of the Go file that builds the \<open>process\<close> value of a chart:
  the \<open>process\<close> struct, the \<open>processOption\<close> closures (\<open>withUnits\<close>, \<open>withEnvs\<close>,
  \<open>withPortsAndProbes\<close>, \<open>withLabels\<close>, \<open>withAnnotations\<close>, ...), \<open>canBeApplied\<close>,
  \<open>newProcess\<close>, \<open>hasOpenPort\<close> and \<open>portEnvVariables\<close>.

  Conventions.
  \<^item> A Go \<open>error\<close> result is a sum: \<open>Inl err\<close> is a non-nil error, \<open>Inr p\<close> is
    \<open>nil\<close> together with the descriptor as the closure left it. What a failing
    closure wrote before it failed is not kept: \<open>newProcess\<close> returns \<open>nil\<close> for the
    descriptor then, and nothing else holds the pointer.
  \<^item> A pointer field is an \<open>option\<close> (\<open>None\<close> is \<open>nil\<close>); a slice is a list
    (\<open>nil\<close> and the empty slice are both \<open>[]\<close>, the code only reads \<open>len\<close>).
  \<^item> A Go map of the descriptor is \<open>(string \<rightharpoonup> string) option\<close>: \<open>None\<close> is the
    \<open>nil\<close> map, which the code tests for before every write.
  \<^item> \<open>int32\<close> is \<open>32 word\<close>, read signed by \<open>%d\<close>. Go's \<open>int\<close> is \<open>int\<close>: the
    code only compares such values, it never computes with them.
\<close>

subsection \<open>Errors\<close>

text \<open>
  \<open>ErrPortsNotFound\<close> is the package's own error value. Every other error reaches
  this file from outside (\<open>Validate\<close>, \<open>Probes\<close>, a caller's closure) and is
  carried by its message.
\<close>

datatype error = ErrPortsNotFound | ErrExternal string

subsection \<open>Kubernetes and ketchv1 values\<close>

text \<open>
  The Kubernetes structs that the file stores without looking inside are opaque.
  The probe type is a parameter \<open>'probe\<close> of the descriptor.
\<close>

typedecl security_context
typedecl resource_requirements
typedecl node_selector_term
typedecl volume
typedecl volume_mount
typedecl lifecycle

text \<open>\<open>v1.ContainerPort\<close> and \<open>v1.ServicePort\<close>: the number the file reads, and the
  name and protocol beside it.\<close>

record container_port =
  ContainerPortName :: string
  ContainerPort :: "32 word"
  ContainerPortProtocol :: string

record service_port =
  ServicePortName :: string
  Port :: "32 word"
  ServicePortProtocol :: string

text \<open>\<open>ketchv1.Env\<close>.\<close>

record env =
  EnvName :: string
  EnvValue :: string

text \<open>The \<open>Probes\<close> bundle returned by the port configurator.\<close>

record 'probe probes =
  Liveness :: "'probe option"
  Readiness :: "'probe option"
  Startup :: "'probe option"

text \<open>
  \<open>ketchv1.MetadataItem\<close>. The target type is a parameter \<open>'t\<close>. \<open>Apply\<close> is a Go
  map that the file only ranges over: it is given as the list of its entries in the
  order the \<open>range\<close> statement visits them (a Go map has no two entries with one key).
\<close>

record 't metadata_item =
  Target :: 't
  ProcessName :: string
  DeploymentVersion :: int
  Apply :: "(string \<times> string) list"

text \<open>
  What the file uses of package \<open>ketchv1\<close> and whose source is elsewhere: the constant
  \<open>DefaultNumberOfUnits\<close>, the three tests of a target and \<open>MetadataItem.Validate\<close>
  (\<open>None\<close> is a \<open>nil\<close> error). They are parameters of the model.
\<close>

record 't ketchv1 =
  DefaultNumberOfUnits :: int
  IsDeployment :: "'t \<Rightarrow> bool"
  IsService :: "'t \<Rightarrow> bool"
  IsPod :: "'t \<Rightarrow> bool"
  Validate :: "'t metadata_item \<Rightarrow> error option"

subsection \<open>The descriptor\<close>

record extraMetadata =
  Labels :: "(string \<rightharpoonup> string) option"
  Annotations :: "(string \<rightharpoonup> string) option"

record 'probe process =
  Name :: string
  Cmd :: "string list"
  Units :: int
  Routable :: bool
  ContainerPorts :: "container_port list"
  ServicePorts :: "service_port list"
  PublicServicePort :: "32 word"
  Env :: "env list"
  SecurityContext :: "security_context option"
  ResourceRequirements :: "resource_requirements option"
  NodeSelectorTerms :: "node_selector_term list"
  Volumes :: "volume list"
  VolumeMounts :: "volume_mount list"
  ReadinessProbe :: "'probe option"
  LivenessProbe :: "'probe option"
  StartupProbe :: "'probe option"
  Lifecycle :: "lifecycle option"
  ServiceMetadata :: extraMetadata
  DeploymentMetadata :: extraMetadata
  PodMetadata :: extraMetadata

type_synonym 'probe processOption = "'probe process \<Rightarrow> error + 'probe process"

text \<open>The interface \<open>portConfigurator\<close>; \<open>Probes\<close> takes no argument.\<close>

record 'probe portConfigurator =
  ContainerPortsForProcess :: "string \<Rightarrow> container_port list"
  ServicePortsForProcess :: "string \<Rightarrow> service_port list"
  Probes :: "error + 'probe probes"

subsection \<open>The simple options\<close>

definition withUnits :: "int option \<Rightarrow> 'probe processOption" where
  "withUnits units p = Inr (case units of None \<Rightarrow> p | Some u \<Rightarrow> p\<lparr>Units := u\<rparr>)"

definition withEnvs :: "env list \<Rightarrow> 'probe processOption" where
  "withEnvs envs p = Inr (p\<lparr>Env := envs\<rparr>)"

definition withCmd :: "string list \<Rightarrow> 'probe processOption" where
  "withCmd cmd p = Inr (p\<lparr>Cmd := cmd\<rparr>)"

definition withSecurityContext :: "security_context option \<Rightarrow> 'probe processOption" where
  "withSecurityContext securityContext p = Inr (p\<lparr>SecurityContext := securityContext\<rparr>)"

definition withLifecycle :: "lifecycle option \<Rightarrow> 'probe processOption" where
  "withLifecycle lc p = Inr (p\<lparr>Lifecycle := lc\<rparr>)"

definition withResourceRequirements :: "resource_requirements option \<Rightarrow> 'probe processOption" where
  "withResourceRequirements rr p = Inr (p\<lparr>ResourceRequirements := rr\<rparr>)"

definition withVolumes :: "volume list \<Rightarrow> 'probe processOption" where
  "withVolumes volumes p = Inr (p\<lparr>Volumes := volumes\<rparr>)"

definition withVolumeMounts :: "volume_mount list \<Rightarrow> 'probe processOption" where
  "withVolumeMounts vm p = Inr (p\<lparr>VolumeMounts := vm\<rparr>)"

subsection \<open>Ports and probes\<close>

text \<open>
  The two port lists are stored first. The early return on an empty list is a
  success. \<open>ServicePorts[0]\<close> is read only behind the length test, so the index is
  in range.
\<close>

definition withPortsAndProbes :: "'probe portConfigurator \<Rightarrow> 'probe processOption" where
  "withPortsAndProbes c p =
     (let p1 = p\<lparr>ServicePorts := ServicePortsForProcess c (Name p)\<rparr>;
          p2 = p1\<lparr>ContainerPorts := ContainerPortsForProcess c (Name p1)\<rparr>
      in if length (ContainerPorts p2) = 0 \<or> length (ServicePorts p2) = 0 then Inr p2
         else (case Probes c of
                 Inl err \<Rightarrow> Inl err
               | Inr pr \<Rightarrow>
                   Inr (p2\<lparr>PublicServicePort := Port (ServicePorts p2 ! 0),
                           LivenessProbe := Liveness pr,
                           ReadinessProbe := Readiness pr,
                           StartupProbe := Startup pr\<rparr>)))"

subsection \<open>Labels and annotations\<close>

definition canBeApplied :: "'t metadata_item \<Rightarrow> string \<Rightarrow> int \<Rightarrow> bool" where
  "canBeApplied item processName version =
     (if DeploymentVersion item > 0 \<and> version \<noteq> DeploymentVersion item then False
      else if ProcessName item \<noteq> [] \<and> processName \<noteq> ProcessName item then False
      else True)"

text \<open>\<open>if m == nil { m = make(map[string]string) }; m[k] = v\<close>.\<close>

definition mapAssign :: "(string \<rightharpoonup> string) option \<Rightarrow> string \<Rightarrow> string \<Rightarrow> (string \<rightharpoonup> string) option" where
  "mapAssign m k v = Some ((case m of None \<Rightarrow> Map.empty | Some f \<Rightarrow> f)(k \<mapsto> v))"

text \<open>The body of the inner loop of \<open>withLabels\<close>, for one entry of \<open>label.Apply\<close>.\<close>

definition setLabel :: "'t ketchv1 \<Rightarrow> 't metadata_item \<Rightarrow> string \<times> string \<Rightarrow> 'probe process \<Rightarrow> 'probe process" where
  "setLabel api label kv p =
     (if IsDeployment api (Target label) then
        p\<lparr>DeploymentMetadata := (DeploymentMetadata p)
             \<lparr>Labels := mapAssign (Labels (DeploymentMetadata p)) (fst kv) (snd kv)\<rparr>\<rparr>
      else if IsService api (Target label) then
        p\<lparr>ServiceMetadata := (ServiceMetadata p)
             \<lparr>Labels := mapAssign (Labels (ServiceMetadata p)) (fst kv) (snd kv)\<rparr>\<rparr>
      else if IsPod api (Target label) then
        p\<lparr>PodMetadata := (PodMetadata p)
             \<lparr>Labels := mapAssign (Labels (PodMetadata p)) (fst kv) (snd kv)\<rparr>\<rparr>
      else p)"

text \<open>The outer loop of \<open>withLabels\<close>: skip, validate, then run the inner loop.\<close>

fun withLabels :: "'t ketchv1 \<Rightarrow> 't metadata_item list \<Rightarrow> int \<Rightarrow> 'probe processOption" where
  "withLabels api [] deploymentVersion p = Inr p"
| "withLabels api (label # labels) deploymentVersion p =
     (if \<not> canBeApplied label (Name p) deploymentVersion then
        withLabels api labels deploymentVersion p
      else (case Validate api label of
              Some err \<Rightarrow> Inl err
            | None \<Rightarrow>
                withLabels api labels deploymentVersion (fold (setLabel api label) (Apply label) p)))"

definition setAnnotation :: "'t ketchv1 \<Rightarrow> 't metadata_item \<Rightarrow> string \<times> string \<Rightarrow> 'probe process \<Rightarrow> 'probe process" where
  "setAnnotation api annotation kv p =
     (if IsDeployment api (Target annotation) then
        p\<lparr>DeploymentMetadata := (DeploymentMetadata p)
             \<lparr>Annotations := mapAssign (Annotations (DeploymentMetadata p)) (fst kv) (snd kv)\<rparr>\<rparr>
      else if IsService api (Target annotation) then
        p\<lparr>ServiceMetadata := (ServiceMetadata p)
             \<lparr>Annotations := mapAssign (Annotations (ServiceMetadata p)) (fst kv) (snd kv)\<rparr>\<rparr>
      else if IsPod api (Target annotation) then
        p\<lparr>PodMetadata := (PodMetadata p)
             \<lparr>Annotations := mapAssign (Annotations (PodMetadata p)) (fst kv) (snd kv)\<rparr>\<rparr>
      else p)"

fun withAnnotations :: "'t ketchv1 \<Rightarrow> 't metadata_item list \<Rightarrow> int \<Rightarrow> 'probe processOption" where
  "withAnnotations api [] deploymentVersion p = Inr p"
| "withAnnotations api (annotation # annotations) deploymentVersion p =
     (if \<not> canBeApplied annotation (Name p) deploymentVersion then
        withAnnotations api annotations deploymentVersion p
      else (case Validate api annotation of
              Some err \<Rightarrow> Inl err
            | None \<Rightarrow>
                withAnnotations api annotations deploymentVersion
                  (fold (setAnnotation api annotation) (Apply annotation) p)))"

subsection \<open>Port environment variables\<close>

text \<open>\<open>fmt.Sprintf("%d", n)\<close> for a signed integer, and \<open>strings.Join\<close>.\<close>

fun decimal :: "nat \<Rightarrow> string" where
  "decimal n = (if n < 10 then [''0123456789'' ! n]
                else decimal (n div 10) @ [''0123456789'' ! (n mod 10)])"

declare decimal.simps [simp del]

definition Sprintf_d :: "int \<Rightarrow> string" where
  "Sprintf_d i = (if i < 0 then CHR ''-'' # decimal (nat (- i)) else decimal (nat i))"

fun Join :: "string list \<Rightarrow> string \<Rightarrow> string" where
  "Join [] sep = []"
| "Join [s] sep = s"
| "Join (s # t # ss) sep = s @ sep @ Join (t # ss) sep"

definition hasOpenPort :: "'probe process \<Rightarrow> bool" where
  "hasOpenPort p \<longleftrightarrow> length (ContainerPorts p) > 0 \<and> length (ServicePorts p) > 0"

definition portEnvVariables :: "'probe process \<Rightarrow> env list" where
  "portEnvVariables p =
     (if length (ContainerPorts p) = 0 then []
      else
        (let envs0 = [];
             envs1 =
               (if length (ContainerPorts p) = 1 then
                  (let portValue = Sprintf_d (sint (ContainerPort (ContainerPorts p ! 0)))
                   in envs0 @ [\<lparr>EnvName = ''port'', EnvValue = portValue\<rparr>]
                            @ [\<lparr>EnvName = ''PORT'', EnvValue = portValue\<rparr>])
                else envs0);
             ports = map (\<lambda>port. Sprintf_d (sint (ContainerPort port))) (ContainerPorts p)
         in envs1 @ [\<lparr>EnvName = ''PORT_'' @ Name p, EnvValue = Join ports '',''\<rparr>]))"

subsection \<open>The build\<close>

text \<open>The loop over \<open>opts\<close> in \<open>newProcess\<close>: the first error ends it.\<close>

fun applyOpts :: "'probe processOption list \<Rightarrow> 'probe process \<Rightarrow> error + 'probe process" where
  "applyOpts [] p = Inr p"
| "applyOpts (opt # opts) p =
     (case opt p of Inl err \<Rightarrow> Inl err | Inr p' \<Rightarrow> applyOpts opts p')"

text \<open>The struct literal of \<open>newProcess\<close>: every field it does not name has Go's zero value.\<close>

definition initProcess :: "'t ketchv1 \<Rightarrow> string \<Rightarrow> bool \<Rightarrow> 'probe process" where
  "initProcess api name isRoutable =
     \<lparr>Name = name, Cmd = [], Units = DefaultNumberOfUnits api, Routable = isRoutable,
      ContainerPorts = [], ServicePorts = [], PublicServicePort = 0, Env = [],
      SecurityContext = None, ResourceRequirements = None, NodeSelectorTerms = [],
      Volumes = [], VolumeMounts = [],
      ReadinessProbe = None, LivenessProbe = None, StartupProbe = None, Lifecycle = None,
      ServiceMetadata = \<lparr>Labels = None, Annotations = None\<rparr>,
      DeploymentMetadata = \<lparr>Labels = None, Annotations = None\<rparr>,
      PodMetadata = \<lparr>Labels = None, Annotations = None\<rparr>\<rparr>"

definition newProcess :: "'t ketchv1 \<Rightarrow> string \<Rightarrow> bool \<Rightarrow> 'probe processOption list \<Rightarrow> error + 'probe process" where
  "newProcess api name isRoutable opts =
     (case applyOpts opts (initProcess api name isRoutable) of
        Inl err \<Rightarrow> Inl err
      | Inr p \<Rightarrow>
          (let p' = p\<lparr>Env := Env p @ portEnvVariables p\<rparr>
           in if \<not> Routable p' then Inr p'
              else if \<not> hasOpenPort p' then Inl ErrPortsNotFound
              else Inr p'))"

subsection \<open>Vocabulary of the properties\<close>

text \<open>
  The reference definition of the port variables, clause by clause: the pair
  \<open>port\<close>/\<open>PORT\<close> for exactly one port, and \<open>PORT_<processName>\<close> with the
  comma-separated decimal values for a non-empty list.
\<close>

definition portDecimal :: "container_port \<Rightarrow> string" where
  "portDecimal c = Sprintf_d (sint (ContainerPort c))"

definition commaJoined :: "string list \<Rightarrow> string" where
  "commaJoined ss = tl (concat (map (\<lambda>s. CHR '','' # s) ss))"

definition portEnvReference :: "string \<Rightarrow> container_port list \<Rightarrow> env list" where
  "portEnvReference processName ports =
     (case ports of
        [c] \<Rightarrow> [\<lparr>EnvName = ''port'', EnvValue = portDecimal c\<rparr>,
                \<lparr>EnvName = ''PORT'', EnvValue = portDecimal c\<rparr>]
      | _ \<Rightarrow> [])
     @ (if ports = [] then []
        else [\<lparr>EnvName = ''PORT_'' @ processName, EnvValue = commaJoined (map portDecimal ports)\<rparr>])"

text \<open>The value of a string of decimal digits, to check \<open>decimal\<close> against.\<close>

definition digitsValue :: "string \<Rightarrow> nat" where
  "digitsValue s = foldl (\<lambda>a c. 10 * a + (of_char c - 48)) 0 s"


text \<open>An option that never writes the \<open>Routable\<close> field, and one that never writes \<open>Env\<close>.\<close>

definition keepsRoutable :: "'probe processOption \<Rightarrow> bool" where
  "keepsRoutable opt \<longleftrightarrow> (\<forall>p q. opt p = Inr q \<longrightarrow> Routable q = Routable p)"

definition keepsEnv :: "'probe processOption \<Rightarrow> bool" where
  "keepsEnv opt \<longleftrightarrow> (\<forall>p q. opt p = Inr q \<longrightarrow> Env q = Env p)"

text \<open>
  Reading a Go map, \<open>v, ok := m[k]\<close>: a \<open>nil\<close> map has no entry. The three
  buckets of a descriptor, the bucket a target selects (the \<open>if\<close>/\<open>else if\<close> chain
  of the inner loops: the first test that holds decides, and a target that passes none
  selects no bucket), and the bucket's value in a descriptor.
\<close>

definition mapIndex :: "(string \<rightharpoonup> string) option \<Rightarrow> string \<Rightarrow> string option" where
  "mapIndex m k = (case m of None \<Rightarrow> None | Some f \<Rightarrow> f k)"

datatype bucket = DeploymentBucket | ServiceBucket | PodBucket

definition targetBucket :: "'t ketchv1 \<Rightarrow> 't \<Rightarrow> bucket option" where
  "targetBucket api t =
     (if IsDeployment api t then Some DeploymentBucket
      else if IsService api t then Some ServiceBucket
      else if IsPod api t then Some PodBucket
      else None)"

fun bucketOf :: "bucket \<Rightarrow> 'probe process \<Rightarrow> extraMetadata" where
  "bucketOf DeploymentBucket p = DeploymentMetadata p"
| "bucketOf ServiceBucket p = ServiceMetadata p"
| "bucketOf PodBucket p = PodMetadata p"

subsection \<open>Example inputs\<close>

text \<open>
  Targets named by their kind, a validation that rejects an empty \<open>Apply\<close>, and a
  default of one unit; a port configurator for \<open>web\<close> with one port on each side and
  probes given by their paths.
\<close>

definition exampleApi :: "string ketchv1" where
  "exampleApi =
     \<lparr>DefaultNumberOfUnits = 1,
      IsDeployment = (\<lambda>t. t = ''Deployment''),
      IsService = (\<lambda>t. t = ''Service''),
      IsPod = (\<lambda>t. t = ''Pod''),
      Validate = (\<lambda>item. if Apply item = [] then Some (ErrExternal ''empty apply'') else None)\<rparr>"

definition examplePorts :: "string portConfigurator" where
  "examplePorts =
     \<lparr>ContainerPortsForProcess = (\<lambda>n. if n = ''web''
         then [\<lparr>ContainerPortName = ''http'', ContainerPort = 8080, ContainerPortProtocol = ''TCP''\<rparr>]
         else []),
      ServicePortsForProcess = (\<lambda>n. if n = ''web''
         then [\<lparr>ServicePortName = ''http'', Port = 80, ServicePortProtocol = ''TCP''\<rparr>]
         else []),
      Probes = Inr \<lparr>Liveness = Some ''/live'', Readiness = Some ''/ready'', Startup = None\<rparr>\<rparr>"

section \<open>Properties\<close>

subsection \<open>The loop over the options\<close>

lemma applyOpts_append:
  "applyOpts (xs @ ys) p = (case applyOpts xs p of Inl err \<Rightarrow> Inl err | Inr q \<Rightarrow> applyOpts ys q)"
  by (induction xs arbitrary: p) (auto split: sum.splits)


lemma applyOpts_keepsRoutable:
  "\<forall>opt\<in>set opts. keepsRoutable opt \<Longrightarrow> applyOpts opts p = Inr q \<Longrightarrow> Routable q = Routable p"
proof (induction opts arbitrary: p)
  case Nil
  then show ?case by simp
next
  case (Cons opt opts)
  from Cons.prems(2) obtain s where s: "opt p = Inr s" and q: "applyOpts opts s = Inr q"
    by (auto split: sum.splits)
  from Cons.prems(1) s have "Routable s = Routable p"
    by (simp add: keepsRoutable_def)
  moreover from Cons.IH Cons.prems(1) q have "Routable q = Routable s"
    by simp
  ultimately show ?case by simp
qed

lemma applyOpts_keepsEnv:
  "\<forall>opt\<in>set opts. keepsEnv opt \<Longrightarrow> applyOpts opts p = Inr q \<Longrightarrow> Env q = Env p"
proof (induction opts arbitrary: p)
  case Nil
  then show ?case by simp
next
  case (Cons opt opts)
  from Cons.prems(2) obtain s where s: "opt p = Inr s" and q: "applyOpts opts s = Inr q"
    by (auto split: sum.splits)
  from Cons.prems(1) s have "Env s = Env p"
    by (simp add: keepsEnv_def)
  moreover from Cons.IH Cons.prems(1) q have "Env q = Env s"
    by simp
  ultimately show ?case by simp
qed

subsection \<open>Decimal strings and joining\<close>

text \<open>
  \<open>Join\<close> with a comma is the comma-separated concatenation, and the digits that
  \<open>decimal\<close> writes have the value of the number written.
\<close>

lemma Join_comma: "Join ss '','' = commaJoined ss"
  by (induction ss "'',''" rule: Join.induct) (simp_all add: commaJoined_def)

lemma digit_char_value:
  "d < 10 \<Longrightarrow> of_char (''0123456789'' ! d) - 48 = d"
proof -
  assume "d < 10"
  then have "d \<in> {0, 1, 2, 3, 4, 5, 6, 7, 8, 9}" by auto
  then show ?thesis by auto
qed

lemma digitsValue_snoc:
  "digitsValue (s @ [c]) = 10 * digitsValue s + (of_char c - 48)"
  by (simp add: digitsValue_def)

lemma digitsValue_decimal: "digitsValue (decimal n) = n"
proof (induction n rule: decimal.induct)
  case (1 n)
  show ?case
  proof (cases "n < 10")
    case True
    then show ?thesis
      using digit_char_value [of n] by (simp add: decimal.simps [of n] digitsValue_def)
  next
    case False
    with 1 have "digitsValue (decimal (n div 10)) = n div 10" by simp
    with False show ?thesis
      using digit_char_value [of "n mod 10"]
      by (simp add: decimal.simps [of n] digitsValue_snoc)
  qed
qed

lemma portDecimal_fun: "(\<lambda>port. Sprintf_d (sint (ContainerPort port))) = portDecimal"
  by (simp add: portDecimal_def fun_eq_iff)

subsection \<open>Scoping of a metadata item\<close>

text \<open>
  C4 (as amended). For every metadata item, process name and deployment version, the
  item applies if and only if its \<open>DeploymentVersion\<close> is not positive (zero, unset
  or negative) or equals the version, and its \<open>ProcessName\<close> is empty or equals the
  process name. In particular an item with no filter applies to every process and
  version, one with \<open>ProcessName = "worker"\<close> applies only to the process \<open>worker\<close>,
  and one with \<open>DeploymentVersion = 2\<close> applies only when the version is 2.
\<close>

theorem canBeApplied_iff:
  "(canBeApplied item processName version \<longleftrightarrow>
      (DeploymentVersion item \<le> 0 \<or> DeploymentVersion item = version) \<and>
      (ProcessName item = [] \<or> ProcessName item = processName))
   \<and> canBeApplied (item\<lparr>ProcessName := [], DeploymentVersion := 0\<rparr>) processName version
   \<and> (canBeApplied (item\<lparr>ProcessName := ''worker'', DeploymentVersion := 0\<rparr>) processName version
        \<longleftrightarrow> processName = ''worker'')
   \<and> (canBeApplied (item\<lparr>ProcessName := [], DeploymentVersion := 2\<rparr>) processName version
        \<longleftrightarrow> version = 2)"
  by (auto simp: canBeApplied_def)

text \<open>
  C4 as stated asks for a \<open>DeploymentVersion\<close> that is zero or equal to the version.
  An item with the version filter \<open>-1\<close> has neither at version 3, and applies: the
  test of \<open>canBeApplied\<close> is \<open>item.DeploymentVersion > 0\<close>.
\<close>

theorem canBeApplied_negative_version_counterexample:
  "canBeApplied \<lparr>Target = ''Service'', ProcessName = [], DeploymentVersion = - 1, Apply = [(''tier'', ''a'')]\<rparr> ''web'' 3
   \<and> \<not> ((DeploymentVersion \<lparr>Target = ''Service'', ProcessName = [], DeploymentVersion = - 1, Apply = [(''tier'', ''a'')]\<rparr> = 0
          \<or> DeploymentVersion \<lparr>Target = ''Service'', ProcessName = [], DeploymentVersion = - 1, Apply = [(''tier'', ''a'')]\<rparr> = 3)
         \<and> (ProcessName \<lparr>Target = ''Service'', ProcessName = [], DeploymentVersion = - 1, Apply = [(''tier'', ''a'')]\<rparr> = []
          \<or> ProcessName \<lparr>Target = ''Service'', ProcessName = [], DeploymentVersion = - 1, Apply = [(''tier'', ''a'')]\<rparr> = ''web''))"
  by (simp add: canBeApplied_def)

subsection \<open>The derived port variables\<close>

text \<open>
  C2. For every descriptor the derived port variables are those of the reference
  definition \<open>portEnvReference\<close>: nothing for an empty container-port list; \<open>port\<close>
  and \<open>PORT\<close>, both the decimal string of the port, for exactly one port; and for a
  non-empty list one entry \<open>PORT_<processName>\<close> with the decimal values of all
  ports in list order, separated by commas. For the ports 80 and 443 of \<open>web\<close> this is
  \<open>PORT_web=80,443\<close> alone; for the one port 8080 it is \<open>port\<close>, \<open>PORT\<close> and
  \<open>PORT_web\<close>, each \<open>8080\<close>.
\<close>

theorem portEnvVariables_reference:
  "portEnvVariables p = portEnvReference (Name p) (ContainerPorts p)
   \<and> portEnvVariables (p\<lparr>Name := ''web'',
        ContainerPorts := [c\<lparr>ContainerPort := 80\<rparr>, c'\<lparr>ContainerPort := 443\<rparr>]\<rparr>)
      = [\<lparr>EnvName = ''PORT_web'', EnvValue = ''80,443''\<rparr>]
   \<and> portEnvVariables (p\<lparr>Name := ''web'', ContainerPorts := [c\<lparr>ContainerPort := 8080\<rparr>]\<rparr>)
      = [\<lparr>EnvName = ''port'', EnvValue = ''8080''\<rparr>, \<lparr>EnvName = ''PORT'', EnvValue = ''8080''\<rparr>,
         \<lparr>EnvName = ''PORT_web'', EnvValue = ''8080''\<rparr>]"
proof (intro conjI)
  show "portEnvVariables p = portEnvReference (Name p) (ContainerPorts p)"
  proof (cases "ContainerPorts p")
    case Nil
    then show ?thesis by (simp add: portEnvVariables_def portEnvReference_def)
  next
    case (Cons c cs)
    then show ?thesis
      by (cases cs)
        (simp_all add: portEnvVariables_def portEnvReference_def Join_comma portDecimal_fun Let_def,
         simp add: portDecimal_def)
  qed
next
  show "portEnvVariables (p\<lparr>Name := ''web'',
        ContainerPorts := [c\<lparr>ContainerPort := 80\<rparr>, c'\<lparr>ContainerPort := 443\<rparr>]\<rparr>)
      = [\<lparr>EnvName = ''PORT_web'', EnvValue = ''80,443''\<rparr>]"
    by (simp add: portEnvVariables_def Sprintf_d_def decimal.simps)
next
  show "portEnvVariables (p\<lparr>Name := ''web'', ContainerPorts := [c\<lparr>ContainerPort := 8080\<rparr>]\<rparr>)
      = [\<lparr>EnvName = ''port'', EnvValue = ''8080''\<rparr>, \<lparr>EnvName = ''PORT'', EnvValue = ''8080''\<rparr>,
         \<lparr>EnvName = ''PORT_web'', EnvValue = ''8080''\<rparr>]"
    by (simp add: portEnvVariables_def Sprintf_d_def decimal.simps Let_def)
qed

subsection \<open>What the options of this file leave alone\<close>

text \<open>No option of the file writes \<open>Routable\<close>; only \<open>withEnvs\<close> writes \<open>Env\<close>.\<close>

lemma keepsRoutable_simple:
  "keepsRoutable (withUnits units)" "keepsRoutable (withEnvs envs)" "keepsRoutable (withCmd cmd)"
  "keepsRoutable (withSecurityContext sc)" "keepsRoutable (withLifecycle lc)"
  "keepsRoutable (withResourceRequirements rr)" "keepsRoutable (withVolumes vs)"
  "keepsRoutable (withVolumeMounts vm)"
  by (auto simp: keepsRoutable_def withUnits_def withEnvs_def withCmd_def withSecurityContext_def
      withLifecycle_def withResourceRequirements_def withVolumes_def withVolumeMounts_def
      split: option.splits)

lemma keepsRoutable_withPortsAndProbes: "keepsRoutable (withPortsAndProbes c)"
  by (auto simp: keepsRoutable_def withPortsAndProbes_def Let_def split: if_splits sum.splits)

lemma keepsEnv_simple:
  "keepsEnv (withUnits units)" "keepsEnv (withCmd cmd)"
  "keepsEnv (withSecurityContext sc)" "keepsEnv (withLifecycle lc)"
  "keepsEnv (withResourceRequirements rr)" "keepsEnv (withVolumes vs)"
  "keepsEnv (withVolumeMounts vm)"
  by (auto simp: keepsEnv_def withUnits_def withCmd_def withSecurityContext_def
      withLifecycle_def withResourceRequirements_def withVolumes_def withVolumeMounts_def
      split: option.splits)

lemma keepsEnv_withPortsAndProbes: "keepsEnv (withPortsAndProbes c)"
  by (auto simp: keepsEnv_def withPortsAndProbes_def Let_def split: if_splits sum.splits)

subsection \<open>The port check of a routable process\<close>

text \<open>
  C1. Let all operations of a build succeed and leave the descriptor \<open>q\<close>. If \<open>q\<close>
  is routable and its container-port list or its service-port list is empty, the build
  fails with \<open>ErrPortsNotFound\<close> and returns no descriptor. If \<open>q\<close> is not routable,
  the build returns \<open>q\<close> with the derived port variables appended, whatever its port
  lists are. The routable flag of \<open>q\<close> is the flag given to \<open>newProcess\<close> when no
  operation writes the field, which holds for every option of the file.
\<close>

theorem newProcess_routable_ports:
  assumes "applyOpts opts (initProcess api name isRoutable) = Inr q"
  shows "(Routable q \<and> (ContainerPorts q = [] \<or> ServicePorts q = [])
            \<longrightarrow> newProcess api name isRoutable opts = Inl ErrPortsNotFound)
       \<and> (\<not> Routable q
            \<longrightarrow> newProcess api name isRoutable opts = Inr (q\<lparr>Env := Env q @ portEnvVariables q\<rparr>))
       \<and> ((\<forall>opt\<in>set opts. keepsRoutable opt) \<longrightarrow> Routable q = isRoutable)"
proof (intro conjI impI)
  assume "Routable q \<and> (ContainerPorts q = [] \<or> ServicePorts q = [])"
  with assms show "newProcess api name isRoutable opts = Inl ErrPortsNotFound"
    by (auto simp: newProcess_def hasOpenPort_def Let_def)
next
  assume "\<not> Routable q"
  with assms show "newProcess api name isRoutable opts = Inr (q\<lparr>Env := Env q @ portEnvVariables q\<rparr>)"
    by (simp add: newProcess_def Let_def)
next
  assume "\<forall>opt\<in>set opts. keepsRoutable opt"
  from applyOpts_keepsRoutable [OF this assms] show "Routable q = isRoutable"
    by (simp add: initProcess_def)
qed

theorem newProcess_routable_ports_witness:
  "newProcess exampleApi ''worker'' True [withCmd [''run''], withPortsAndProbes examplePorts]
     = (Inl ErrPortsNotFound :: error + string process)
   \<and> newProcess exampleApi ''worker'' False [withCmd [''run''], withPortsAndProbes examplePorts]
     = Inr ((initProcess exampleApi ''worker'' False :: string process)\<lparr>Cmd := [''run'']\<rparr>)"
proof -
  let ?opts = "[withCmd [''run''], withPortsAndProbes examplePorts] :: string processOption list"
  have k: "\<forall>opt\<in>set ?opts. keepsRoutable opt"
    by (simp add: keepsRoutable_simple keepsRoutable_withPortsAndProbes)
  have a: "applyOpts ?opts (initProcess exampleApi ''worker'' r)
      = Inr ((initProcess exampleApi ''worker'' r)\<lparr>Cmd := [''run'']\<rparr>)" for r
    by (simp add: withCmd_def withPortsAndProbes_def examplePorts_def initProcess_def)
  have e: "portEnvVariables ((initProcess exampleApi ''worker'' r :: string process)\<lparr>Cmd := [''run'']\<rparr>) = []" for r
    by (simp add: portEnvVariables_def initProcess_def)
  from newProcess_routable_ports [OF a [of True]] k
  have "newProcess exampleApi ''worker'' True ?opts = (Inl ErrPortsNotFound :: error + string process)"
    by (simp add: initProcess_def)
  moreover from newProcess_routable_ports [OF a [of False]] k e [of False]
  have "newProcess exampleApi ''worker'' False ?opts
      = Inr ((initProcess exampleApi ''worker'' False :: string process)\<lparr>Cmd := [''run'']\<rparr>)"
    by (simp add: initProcess_def)
  ultimately show ?thesis by simp
qed

subsection \<open>Order of the operations and the first failure\<close>



subsection \<open>The environment of a built descriptor\<close>

text \<open>
  C6. For every successful build, with \<open>q\<close> the descriptor the operations left, the
  returned descriptor is \<open>q\<close> with its environment list followed by the derived port
  variables: the entries of \<open>q\<close> are a prefix of the result, none removed or
  changed. When the environment was set by \<open>withEnvs envs\<close> and no later operation
  writes it, the result is \<open>envs\<close> followed by the derived entries.
\<close>

theorem newProcess_env_appended:
  assumes "newProcess api name isRoutable opts = Inr p"
  shows "\<exists>q. applyOpts opts (initProcess api name isRoutable) = Inr q
          \<and> p = q\<lparr>Env := Env q @ portEnvVariables q\<rparr>
          \<and> Env p = Env q @ portEnvVariables p
          \<and> take (length (Env q)) (Env p) = Env q
          \<and> (\<forall>pre envs post. opts = pre @ withEnvs envs # post \<and> (\<forall>opt\<in>set post. keepsEnv opt)
                \<longrightarrow> Env p = envs @ portEnvVariables p)"
proof -
  from assms obtain q where q: "applyOpts opts (initProcess api name isRoutable) = Inr q"
    and p: "p = q\<lparr>Env := Env q @ portEnvVariables q\<rparr>"
    by (auto simp: newProcess_def Let_def split: sum.splits if_splits)
  have pe: "portEnvVariables p = portEnvVariables q"
    by (simp add: p portEnvVariables_def)
  have "Env q = envs"
    if "opts = pre @ withEnvs envs # post" and "\<forall>opt\<in>set post. keepsEnv opt" for pre envs post
  proof -
    from q that(1) obtain s where "applyOpts post (s\<lparr>Env := envs\<rparr>) = Inr q"
      by (auto simp: applyOpts_append withEnvs_def split: sum.splits)
    from applyOpts_keepsEnv [OF that(2) this] show ?thesis by simp
  qed
  with q p pe show ?thesis by auto
qed

theorem newProcess_env_appended_witness:
  "newProcess exampleApi ''web'' True
      [withEnvs [\<lparr>EnvName = ''MODE'', EnvValue = ''prod''\<rparr>, \<lparr>EnvName = ''PORT'', EnvValue = ''9''\<rparr>],
       withPortsAndProbes examplePorts]
     = Inr ((initProcess exampleApi ''web'' True)
         \<lparr>ContainerPorts := ContainerPortsForProcess examplePorts ''web'',
          ServicePorts := ServicePortsForProcess examplePorts ''web'',
          PublicServicePort := 80,
          Env := [\<lparr>EnvName = ''MODE'', EnvValue = ''prod''\<rparr>, \<lparr>EnvName = ''PORT'', EnvValue = ''9''\<rparr>,
                  \<lparr>EnvName = ''port'', EnvValue = ''8080''\<rparr>, \<lparr>EnvName = ''PORT'', EnvValue = ''8080''\<rparr>,
                  \<lparr>EnvName = ''PORT_web'', EnvValue = ''8080''\<rparr>],
          ReadinessProbe := Some ''/ready'', LivenessProbe := Some ''/live''\<rparr>)
   \<and> Env ((initProcess exampleApi ''web'' True :: string process)
         \<lparr>ContainerPorts := ContainerPortsForProcess examplePorts ''web'',
          ServicePorts := ServicePortsForProcess examplePorts ''web'',
          PublicServicePort := 80,
          Env := [\<lparr>EnvName = ''MODE'', EnvValue = ''prod''\<rparr>, \<lparr>EnvName = ''PORT'', EnvValue = ''9''\<rparr>,
                  \<lparr>EnvName = ''port'', EnvValue = ''8080''\<rparr>, \<lparr>EnvName = ''PORT'', EnvValue = ''8080''\<rparr>,
                  \<lparr>EnvName = ''PORT_web'', EnvValue = ''8080''\<rparr>],
          ReadinessProbe := Some ''/ready'', LivenessProbe := Some ''/live''\<rparr>)
     = [\<lparr>EnvName = ''MODE'', EnvValue = ''prod''\<rparr>, \<lparr>EnvName = ''PORT'', EnvValue = ''9''\<rparr>]
       @ portEnvVariables ((initProcess exampleApi ''web'' True :: string process)
         \<lparr>ContainerPorts := ContainerPortsForProcess examplePorts ''web''\<rparr>)"
proof -
  let ?envs = "[\<lparr>EnvName = ''MODE'', EnvValue = ''prod''\<rparr>, \<lparr>EnvName = ''PORT'', EnvValue = ''9''\<rparr>]"
  let ?opts = "[withEnvs ?envs, withPortsAndProbes examplePorts] :: string processOption list"
  let ?p = "(initProcess exampleApi ''web'' True :: string process)
         \<lparr>ContainerPorts := ContainerPortsForProcess examplePorts ''web'',
          ServicePorts := ServicePortsForProcess examplePorts ''web'',
          PublicServicePort := 80,
          Env := ?envs @ [\<lparr>EnvName = ''port'', EnvValue = ''8080''\<rparr>, \<lparr>EnvName = ''PORT'', EnvValue = ''8080''\<rparr>,
                  \<lparr>EnvName = ''PORT_web'', EnvValue = ''8080''\<rparr>],
          ReadinessProbe := Some ''/ready'', LivenessProbe := Some ''/live''\<rparr>"
  have run: "newProcess exampleApi ''web'' True ?opts = Inr ?p"
    by (simp add: newProcess_def withEnvs_def withPortsAndProbes_def examplePorts_def
        initProcess_def hasOpenPort_def portEnvVariables_def Sprintf_d_def decimal.simps Let_def)
  have "opts = [] @ withEnvs ?envs # [withPortsAndProbes examplePorts]
      \<and> (\<forall>opt\<in>set [withPortsAndProbes examplePorts :: string processOption]. keepsEnv opt)"
    if "opts = ?opts" for opts
    using that by (simp add: keepsEnv_withPortsAndProbes)
  with newProcess_env_appended [OF run] have "Env ?p = ?envs @ portEnvVariables ?p"
    by blast
  moreover have "portEnvVariables ?p = portEnvVariables ((initProcess exampleApi ''web'' True :: string process)
         \<lparr>ContainerPorts := ContainerPortsForProcess examplePorts ''web''\<rparr>)"
    by (simp add: portEnvVariables_def initProcess_def)
  ultimately show ?thesis using run by simp
qed

subsection \<open>The label and annotation loops\<close>

text \<open>
  Neither loop writes the name of the process, so the scoping test of every item sees
  the same name. A loop over a concatenated list is the loop over the first part
  followed by the loop over the second. Reading a key of a bucket after the inner
  loop gives the item's value when the item targets the bucket and binds the key, and
  the old value otherwise.
\<close>

lemma Name_setLabel [simp]: "Name (setLabel api l kv p) = Name p"
  by (simp add: setLabel_def)

lemma Name_fold_setLabel [simp]: "Name (fold (setLabel api l) kvs p) = Name p"
  by (induction kvs arbitrary: p) simp_all

lemma Name_setAnnotation [simp]: "Name (setAnnotation api l kv p) = Name p"
  by (simp add: setAnnotation_def)

lemma Name_fold_setAnnotation [simp]: "Name (fold (setAnnotation api l) kvs p) = Name p"
  by (induction kvs arbitrary: p) simp_all

lemma withLabels_Name: "withLabels api items v p = Inr q \<Longrightarrow> Name q = Name p"
  by (induction api items v p rule: withLabels.induct) (auto split: if_splits option.splits)

lemma withAnnotations_Name: "withAnnotations api items v p = Inr q \<Longrightarrow> Name q = Name p"
  by (induction api items v p rule: withAnnotations.induct) (auto split: if_splits option.splits)

lemma withLabels_append:
  "withLabels api (xs @ ys) v p =
     (case withLabels api xs v p of Inl err \<Rightarrow> Inl err | Inr s \<Rightarrow> withLabels api ys v s)"
  by (induction api xs v p rule: withLabels.induct) (auto split: sum.splits option.splits)

lemma withAnnotations_append:
  "withAnnotations api (xs @ ys) v p =
     (case withAnnotations api xs v p of Inl err \<Rightarrow> Inl err | Inr s \<Rightarrow> withAnnotations api ys v s)"
  by (induction api xs v p rule: withAnnotations.induct) (auto split: sum.splits option.splits)

lemma withLabels_valid:
  "\<forall>x\<in>set items. canBeApplied x (Name p) v \<longrightarrow> Validate api x = None
   \<Longrightarrow> \<exists>q. withLabels api items v p = Inr q"
  by (induction api items v p rule: withLabels.induct) (auto split: option.splits)

lemma withAnnotations_valid:
  "\<forall>x\<in>set items. canBeApplied x (Name p) v \<longrightarrow> Validate api x = None
   \<Longrightarrow> \<exists>q. withAnnotations api items v p = Inr q"
  by (induction api items v p rule: withAnnotations.induct) (auto split: option.splits)

lemma mapIndex_mapAssign [simp]:
  "mapIndex (mapAssign m k' x) k = (if k = k' then Some x else mapIndex m k)"
  by (simp add: mapIndex_def mapAssign_def split: option.splits)

lemma label_setLabel:
  "mapIndex (Labels (bucketOf bk (setLabel api l kv p))) k =
     (if targetBucket api (Target l) = Some bk \<and> k = fst kv then Some (snd kv)
      else mapIndex (Labels (bucketOf bk p)) k)"
  by (cases bk) (simp_all add: setLabel_def targetBucket_def)

lemma annotation_setAnnotation:
  "mapIndex (Annotations (bucketOf bk (setAnnotation api l kv p))) k =
     (if targetBucket api (Target l) = Some bk \<and> k = fst kv then Some (snd kv)
      else mapIndex (Annotations (bucketOf bk p)) k)"
  by (cases bk) (simp_all add: setAnnotation_def targetBucket_def)

lemma label_fold_miss:
  "targetBucket api (Target l) \<noteq> Some bk \<or> k \<notin> fst ` set kvs
   \<Longrightarrow> mapIndex (Labels (bucketOf bk (fold (setLabel api l) kvs p))) k
       = mapIndex (Labels (bucketOf bk p)) k"
  by (induction kvs arbitrary: p) (auto simp: label_setLabel)

lemma annotation_fold_miss:
  "targetBucket api (Target l) \<noteq> Some bk \<or> k \<notin> fst ` set kvs
   \<Longrightarrow> mapIndex (Annotations (bucketOf bk (fold (setAnnotation api l) kvs p))) k
       = mapIndex (Annotations (bucketOf bk p)) k"
  by (induction kvs arbitrary: p) (auto simp: annotation_setAnnotation)

lemma label_fold_hit:
  "targetBucket api (Target l) = Some bk \<Longrightarrow> distinct (map fst kvs) \<Longrightarrow> (k, x) \<in> set kvs
   \<Longrightarrow> mapIndex (Labels (bucketOf bk (fold (setLabel api l) kvs p))) k = Some x"
proof (induction kvs arbitrary: p)
  case Nil
  then show ?case by simp
next
  case (Cons kv kvs)
  show ?case
  proof (cases "(k, x) = kv")
    case True
    with Cons.prems have "k \<notin> fst ` set kvs" by force
    with True Cons.prems(1) show ?thesis
      by (auto simp: label_fold_miss label_setLabel)
  next
    case False
    with Cons show ?thesis by simp
  qed
qed

lemma annotation_fold_hit:
  "targetBucket api (Target l) = Some bk \<Longrightarrow> distinct (map fst kvs) \<Longrightarrow> (k, x) \<in> set kvs
   \<Longrightarrow> mapIndex (Annotations (bucketOf bk (fold (setAnnotation api l) kvs p))) k = Some x"
proof (induction kvs arbitrary: p)
  case Nil
  then show ?case by simp
next
  case (Cons kv kvs)
  show ?case
  proof (cases "(k, x) = kv")
    case True
    with Cons.prems have "k \<notin> fst ` set kvs" by force
    with True Cons.prems(1) show ?thesis
      by (auto simp: annotation_fold_miss annotation_setAnnotation)
  next
    case False
    with Cons show ?thesis by simp
  qed
qed

lemma withLabels_unaffected:
  "withLabels api items v p = Inr q
   \<Longrightarrow> \<forall>c\<in>set items. canBeApplied c (Name p) v \<and> targetBucket api (Target c) = Some bk
          \<longrightarrow> k \<notin> fst ` set (Apply c)
   \<Longrightarrow> mapIndex (Labels (bucketOf bk q)) k = mapIndex (Labels (bucketOf bk p)) k"
proof (induction api items v p rule: withLabels.induct)
  case (1 api deploymentVersion p)
  then show ?case by simp
next
  case (2 api label labels deploymentVersion p)
  show ?case
  proof (cases "canBeApplied label (Name p) deploymentVersion")
    case False
    with 2 show ?thesis by simp
  next
    case True
    with "2.prems"(1) have val: "Validate api label = None"
      and rest: "withLabels api labels deploymentVersion (fold (setLabel api label) (Apply label) p) = Inr q"
      by (auto split: option.splits)
    from True "2.prems"(2)
    have miss: "targetBucket api (Target label) \<noteq> Some bk \<or> k \<notin> fst ` set (Apply label)"
      by auto
    from "2.IH"(2) [OF _ val rest] True "2.prems"(2)
    have "mapIndex (Labels (bucketOf bk q)) k
        = mapIndex (Labels (bucketOf bk (fold (setLabel api label) (Apply label) p))) k"
      by simp
    with label_fold_miss [OF miss] show ?thesis by simp
  qed
qed

lemma withAnnotations_unaffected:
  "withAnnotations api items v p = Inr q
   \<Longrightarrow> \<forall>c\<in>set items. canBeApplied c (Name p) v \<and> targetBucket api (Target c) = Some bk
          \<longrightarrow> k \<notin> fst ` set (Apply c)
   \<Longrightarrow> mapIndex (Annotations (bucketOf bk q)) k = mapIndex (Annotations (bucketOf bk p)) k"
proof (induction api items v p rule: withAnnotations.induct)
  case (1 api deploymentVersion p)
  then show ?case by simp
next
  case (2 api annotation annotations deploymentVersion p)
  show ?case
  proof (cases "canBeApplied annotation (Name p) deploymentVersion")
    case False
    with 2 show ?thesis by simp
  next
    case True
    with "2.prems"(1) have val: "Validate api annotation = None"
      and rest: "withAnnotations api annotations deploymentVersion
          (fold (setAnnotation api annotation) (Apply annotation) p) = Inr q"
      by (auto split: option.splits)
    from True "2.prems"(2)
    have miss: "targetBucket api (Target annotation) \<noteq> Some bk \<or> k \<notin> fst ` set (Apply annotation)"
      by auto
    from "2.IH"(2) [OF _ val rest] True "2.prems"(2)
    have "mapIndex (Annotations (bucketOf bk q)) k
        = mapIndex (Annotations (bucketOf bk (fold (setAnnotation api annotation) (Apply annotation) p))) k"
      by simp
    with annotation_fold_miss [OF miss] show ?thesis by simp
  qed
qed

subsection \<open>Wiring ports and probes\<close>

text \<open>
  C7 (as amended). When the port-wiring overlay runs, the service ports and the
  container ports that the port configurator gives for the name of the process are
  stored in the descriptor. If either list is empty the overlay succeeds with nothing
  else changed, whatever \<open>Probes\<close> would answer: probes and \<open>PublicServicePort\<close>
  stay as they were. If both lists are non-empty the answer of \<open>Probes\<close> decides:
  when it succeeds, the liveness, readiness and startup probes are stored and
  \<open>PublicServicePort\<close> becomes the number of the first service port; when it fails,
  the overlay fails with that error.
\<close>

theorem withPortsAndProbes_cases:
  "(ContainerPortsForProcess c (Name p) = [] \<or> ServicePortsForProcess c (Name p) = []
      \<longrightarrow> (\<forall>x. withPortsAndProbes (c\<lparr>Probes := x\<rparr>) p
             = Inr (p\<lparr>ServicePorts := ServicePortsForProcess c (Name p),
                      ContainerPorts := ContainerPortsForProcess c (Name p)\<rparr>)))
   \<and> (ContainerPortsForProcess c (Name p) \<noteq> [] \<and> ServicePortsForProcess c (Name p) \<noteq> []
      \<longrightarrow> (\<forall>pr. Probes c = Inr pr
             \<longrightarrow> withPortsAndProbes c p
                 = Inr (p\<lparr>ServicePorts := ServicePortsForProcess c (Name p),
                          ContainerPorts := ContainerPortsForProcess c (Name p),
                          PublicServicePort := Port (hd (ServicePortsForProcess c (Name p))),
                          LivenessProbe := Liveness pr,
                          ReadinessProbe := Readiness pr,
                          StartupProbe := Startup pr\<rparr>))
        \<and> (\<forall>err. Probes c = Inl err \<longrightarrow> withPortsAndProbes c p = Inl err))"
  by (auto simp: withPortsAndProbes_def Let_def hd_conv_nth)

theorem withPortsAndProbes_cases_witness:
  "ContainerPortsForProcess examplePorts ''web'' \<noteq> [] \<and> ServicePortsForProcess examplePorts ''web'' \<noteq> []
   \<and> withPortsAndProbes examplePorts (initProcess exampleApi ''web'' True)
     = Inr ((initProcess exampleApi ''web'' True)
         \<lparr>ServicePorts := [\<lparr>ServicePortName = ''http'', Port = 80, ServicePortProtocol = ''TCP''\<rparr>],
          ContainerPorts := [\<lparr>ContainerPortName = ''http'', ContainerPort = 8080, ContainerPortProtocol = ''TCP''\<rparr>],
          PublicServicePort := 80,
          LivenessProbe := Some ''/live'', ReadinessProbe := Some ''/ready'', StartupProbe := None\<rparr>)
   \<and> ContainerPortsForProcess examplePorts ''worker'' = []
   \<and> withPortsAndProbes (examplePorts\<lparr>Probes := Inl (ErrExternal ''invalid probe'')\<rparr>)
        (initProcess exampleApi ''worker'' True)
     = Inr (initProcess exampleApi ''worker'' True :: string process)
   \<and> withPortsAndProbes (examplePorts\<lparr>Probes := Inl (ErrExternal ''invalid probe'')\<rparr>)
        (initProcess exampleApi ''web'' True)
     = (Inl (ErrExternal ''invalid probe'') :: error + string process)"
proof -
  let ?web = "initProcess exampleApi ''web'' True :: string process"
  let ?worker = "initProcess exampleApi ''worker'' True :: string process"
  let ?broken = "examplePorts\<lparr>Probes := Inl (ErrExternal ''invalid probe'')\<rparr>"
  have names: "Name ?web = ''web''" "Name ?worker = ''worker''"
    by (simp_all add: initProcess_def)
  have ports: "ContainerPortsForProcess examplePorts ''web''
        = [\<lparr>ContainerPortName = ''http'', ContainerPort = 8080, ContainerPortProtocol = ''TCP''\<rparr>]"
      "ServicePortsForProcess examplePorts ''web''
        = [\<lparr>ServicePortName = ''http'', Port = 80, ServicePortProtocol = ''TCP''\<rparr>]"
      "ContainerPortsForProcess examplePorts ''worker'' = []"
      "ServicePortsForProcess examplePorts ''worker'' = []"
      "Probes examplePorts = Inr \<lparr>Liveness = Some ''/live'', Readiness = Some ''/ready'', Startup = None\<rparr>"
    by (simp_all add: examplePorts_def)
  have bports: "ContainerPortsForProcess ?broken = ContainerPortsForProcess examplePorts"
      "ServicePortsForProcess ?broken = ServicePortsForProcess examplePorts"
      "Probes ?broken = Inl (ErrExternal ''invalid probe'')"
    by simp_all
  from withPortsAndProbes_cases [of examplePorts ?web] names ports
  have 1: "withPortsAndProbes examplePorts ?web
     = Inr (?web
         \<lparr>ServicePorts := [\<lparr>ServicePortName = ''http'', Port = 80, ServicePortProtocol = ''TCP''\<rparr>],
          ContainerPorts := [\<lparr>ContainerPortName = ''http'', ContainerPort = 8080, ContainerPortProtocol = ''TCP''\<rparr>],
          PublicServicePort := 80,
          LivenessProbe := Some ''/live'', ReadinessProbe := Some ''/ready'', StartupProbe := None\<rparr>)"
    by simp
  from withPortsAndProbes_cases [of examplePorts ?worker] names ports
  have "withPortsAndProbes ?broken ?worker
      = Inr (?worker\<lparr>ServicePorts := [], ContainerPorts := []\<rparr>)"
    by simp
  then have 2: "withPortsAndProbes ?broken ?worker = Inr ?worker"
    by (simp add: initProcess_def)
  from withPortsAndProbes_cases [of ?broken ?web] names ports bports
  have 3: "withPortsAndProbes ?broken ?web = Inl (ErrExternal ''invalid probe'')"
    by simp
  from 1 2 3 ports show ?thesis by simp
qed

text \<open>
  C7 as stated has the probes stored and \<open>PublicServicePort\<close> set whenever both
  lists are non-empty. With both lists non-empty and a failing \<open>Probes\<close> the overlay
  returns the error instead.
\<close>

theorem withPortsAndProbes_failing_probes_counterexample:
  "ContainerPortsForProcess (examplePorts\<lparr>Probes := Inl (ErrExternal ''invalid probe'')\<rparr>) ''web'' \<noteq> []
   \<and> ServicePortsForProcess (examplePorts\<lparr>Probes := Inl (ErrExternal ''invalid probe'')\<rparr>) ''web'' \<noteq> []
   \<and> withPortsAndProbes (examplePorts\<lparr>Probes := Inl (ErrExternal ''invalid probe'')\<rparr>)
        (initProcess exampleApi ''web'' True)
     = (Inl (ErrExternal ''invalid probe'') :: error + string process)"
  by (simp add: withPortsAndProbes_def examplePorts_def initProcess_def)

subsection \<open>Items out of scope and invalid items\<close>

text \<open>
  An item that fails the scoping test is passed over. An applicable item that fails
  its validation ends the loop with an error.
\<close>

lemma withLabels_skip:
  "\<not> canBeApplied item (Name p) v
   \<Longrightarrow> withLabels api (xs @ item # ys) v p = withLabels api (xs @ ys) v p"
  by (auto simp: withLabels_append dest: withLabels_Name split: sum.splits)

lemma withAnnotations_skip:
  "\<not> canBeApplied item (Name p) v
   \<Longrightarrow> withAnnotations api (xs @ item # ys) v p = withAnnotations api (xs @ ys) v p"
  by (auto simp: withAnnotations_append dest: withAnnotations_Name split: sum.splits)

lemma withLabels_invalid:
  "x \<in> set items \<Longrightarrow> canBeApplied x (Name p) v \<Longrightarrow> Validate api x = Some e
   \<Longrightarrow> \<exists>y err. y \<in> set items \<and> canBeApplied y (Name p) v \<and> Validate api y = Some err
          \<and> withLabels api items v p = Inl err"
proof (induction api items v p rule: withLabels.induct)
  case (1 api deploymentVersion p)
  then show ?case by simp
next
  case (2 api label labels deploymentVersion p)
  show ?case
  proof (cases "canBeApplied label (Name p) deploymentVersion")
    case False
    with "2.prems" have "x \<in> set labels" by auto
    from "2.IH"(1) [OF _ this "2.prems"(2,3)] False show ?thesis by auto
  next
    case True
    show ?thesis
    proof (cases "Validate api label")
      case (Some err)
      with True show ?thesis by auto
    next
      case None
      with "2.prems" have "x \<in> set labels" by auto
      from "2.IH"(2) [OF _ None this] True "2.prems"(2,3) None show ?thesis by auto
    qed
  qed
qed

lemma withAnnotations_invalid:
  "x \<in> set items \<Longrightarrow> canBeApplied x (Name p) v \<Longrightarrow> Validate api x = Some e
   \<Longrightarrow> \<exists>y err. y \<in> set items \<and> canBeApplied y (Name p) v \<and> Validate api y = Some err
          \<and> withAnnotations api items v p = Inl err"
proof (induction api items v p rule: withAnnotations.induct)
  case (1 api deploymentVersion p)
  then show ?case by simp
next
  case (2 api annotation annotations deploymentVersion p)
  show ?case
  proof (cases "canBeApplied annotation (Name p) deploymentVersion")
    case False
    with "2.prems" have "x \<in> set annotations" by auto
    from "2.IH"(1) [OF _ this "2.prems"(2,3)] False show ?thesis by auto
  next
    case True
    show ?thesis
    proof (cases "Validate api annotation")
      case (Some err)
      with True show ?thesis by auto
    next
      case None
      with "2.prems" have "x \<in> set annotations" by auto
      from "2.IH"(2) [OF _ None this] True "2.prems"(2,3) None show ?thesis by auto
    qed
  qed
qed

lemma withLabels_first_invalid:
  assumes "\<forall>x\<in>set xs. canBeApplied x (Name p) v \<longrightarrow> Validate api x = None"
    and "canBeApplied item (Name p) v" and "Validate api item = Some err"
  shows "withLabels api (xs @ item # ys) v p = Inl err"
proof -
  from withLabels_valid [OF assms(1)] obtain s where s: "withLabels api xs v p = Inr s" ..
  with assms(2,3) withLabels_Name [OF s] show ?thesis
    by (simp add: withLabels_append)
qed

lemma withAnnotations_first_invalid:
  assumes "\<forall>x\<in>set xs. canBeApplied x (Name p) v \<longrightarrow> Validate api x = None"
    and "canBeApplied item (Name p) v" and "Validate api item = Some err"
  shows "withAnnotations api (xs @ item # ys) v p = Inl err"
proof -
  from withAnnotations_valid [OF assms(1)] obtain s where s: "withAnnotations api xs v p = Inr s" ..
  with assms(2,3) withAnnotations_Name [OF s] show ?thesis
    by (simp add: withAnnotations_append)
qed

text \<open>
  C10. A metadata item that does not pass the scoping test for the process and version
  of the build is skipped before \<open>Validate\<close> is called on it: the label overlay and
  the annotation overlay give the same result with the item and without it, whatever
  \<open>Validate\<close> says about it. So when every applicable item among the others is valid,
  both overlays succeed even if the skipped item is invalid.
\<close>

theorem inapplicable_item_skipped:
  assumes "\<not> canBeApplied item (Name p) v"
  shows "withLabels api (xs @ item # ys) v p = withLabels api (xs @ ys) v p
       \<and> withAnnotations api (xs @ item # ys) v p = withAnnotations api (xs @ ys) v p
       \<and> ((\<forall>x\<in>set (xs @ ys). canBeApplied x (Name p) v \<longrightarrow> Validate api x = None)
            \<longrightarrow> (\<exists>q. withLabels api (xs @ item # ys) v p = Inr q)
              \<and> (\<exists>q. withAnnotations api (xs @ item # ys) v p = Inr q))"
proof -
  have "\<forall>x\<in>set (xs @ item # ys). canBeApplied x (Name p) v \<longrightarrow> Validate api x = None"
    if "\<forall>x\<in>set (xs @ ys). canBeApplied x (Name p) v \<longrightarrow> Validate api x = None"
    using that assms by auto
  then show ?thesis
    using withLabels_skip [OF assms] withAnnotations_skip [OF assms]
      withLabels_valid [of "xs @ item # ys" p v api]
      withAnnotations_valid [of "xs @ item # ys" p v api]
    by blast
qed

theorem inapplicable_item_skipped_witness:
  "\<not> canBeApplied \<lparr>Target = ''Pod'', ProcessName = ''worker'', DeploymentVersion = 0, Apply = []\<rparr>
        (Name (initProcess exampleApi ''web'' False :: string process)) 1
   \<and> Validate exampleApi \<lparr>Target = ''Pod'', ProcessName = ''worker'', DeploymentVersion = 0, Apply = []\<rparr>
       = Some (ErrExternal ''empty apply'')
   \<and> withLabels exampleApi
        [\<lparr>Target = ''Pod'', ProcessName = ''worker'', DeploymentVersion = 0, Apply = []\<rparr>] 1
        (initProcess exampleApi ''web'' False)
       = Inr (initProcess exampleApi ''web'' False :: string process)
   \<and> withAnnotations exampleApi
        [\<lparr>Target = ''Pod'', ProcessName = ''worker'', DeploymentVersion = 0, Apply = []\<rparr>] 1
        (initProcess exampleApi ''web'' False)
       = Inr (initProcess exampleApi ''web'' False :: string process)"
proof -
  let ?item = "\<lparr>Target = ''Pod'', ProcessName = ''worker'', DeploymentVersion = 0, Apply = []\<rparr>"
  let ?p = "initProcess exampleApi ''web'' False :: string process"
  have skip: "\<not> canBeApplied ?item (Name ?p) 1"
    by (simp add: canBeApplied_def initProcess_def)
  have bad: "Validate exampleApi ?item = Some (ErrExternal ''empty apply'')"
    by (simp add: exampleApi_def)
  from inapplicable_item_skipped [OF skip, of exampleApi "[]" "[]"]
  have "withLabels exampleApi [?item] 1 ?p = Inr ?p"
    and "withAnnotations exampleApi [?item] 1 ?p = Inr ?p"
    by simp_all
  with skip bad show ?thesis by simp
qed

text \<open>
  C8 (as amended). Let the operations before a label or annotation overlay succeed.
  If an item of the overlay's list passes the scoping test and fails its validation,
  the build fails with the validation error of an applicable item of that list and
  returns no descriptor, whatever operations follow; when every applicable item before
  it in the list is valid, the error is that item's own.
\<close>

theorem invalid_applicable_item_aborts:
  assumes "applyOpts pre (initProcess api name isRoutable) = Inr s"
    and "canBeApplied item (Name s) v"
    and "Validate api item = Some err"
  shows "(\<exists>y e. y \<in> set (xs @ item # ys) \<and> canBeApplied y (Name s) v \<and> Validate api y = Some e
            \<and> newProcess api name isRoutable (pre @ withLabels api (xs @ item # ys) v # post) = Inl e)
       \<and> (\<exists>y e. y \<in> set (xs @ item # ys) \<and> canBeApplied y (Name s) v \<and> Validate api y = Some e
            \<and> newProcess api name isRoutable (pre @ withAnnotations api (xs @ item # ys) v # post) = Inl e)
       \<and> ((\<forall>x\<in>set xs. canBeApplied x (Name s) v \<longrightarrow> Validate api x = None)
            \<longrightarrow> newProcess api name isRoutable (pre @ withLabels api (xs @ item # ys) v # post) = Inl err
              \<and> newProcess api name isRoutable (pre @ withAnnotations api (xs @ item # ys) v # post) = Inl err)"
proof (intro conjI impI)
  have mem: "item \<in> set (xs @ item # ys)" by simp
  from withLabels_invalid [OF mem assms(2,3)]
  obtain y e where "y \<in> set (xs @ item # ys)" "canBeApplied y (Name s) v" "Validate api y = Some e"
    "withLabels api (xs @ item # ys) v s = Inl e"
    by blast
  with assms(1)
  show "\<exists>y e. y \<in> set (xs @ item # ys) \<and> canBeApplied y (Name s) v \<and> Validate api y = Some e
      \<and> newProcess api name isRoutable (pre @ withLabels api (xs @ item # ys) v # post) = Inl e"
    by (auto simp: newProcess_def applyOpts_append)
  from withAnnotations_invalid [OF mem assms(2,3)]
  obtain y e where "y \<in> set (xs @ item # ys)" "canBeApplied y (Name s) v" "Validate api y = Some e"
    "withAnnotations api (xs @ item # ys) v s = Inl e"
    by blast
  with assms(1)
  show "\<exists>y e. y \<in> set (xs @ item # ys) \<and> canBeApplied y (Name s) v \<and> Validate api y = Some e
      \<and> newProcess api name isRoutable (pre @ withAnnotations api (xs @ item # ys) v # post) = Inl e"
    by (auto simp: newProcess_def applyOpts_append)
next
  assume first: "\<forall>x\<in>set xs. canBeApplied x (Name s) v \<longrightarrow> Validate api x = None"
  have "withLabels api (xs @ item # ys) v s = Inl err"
    by (rule withLabels_first_invalid [OF first assms(2,3)])
  with assms(1)
  show "newProcess api name isRoutable (pre @ withLabels api (xs @ item # ys) v # post) = Inl err"
    by (simp add: newProcess_def applyOpts_append)
  have "withAnnotations api (xs @ item # ys) v s = Inl err"
    by (rule withAnnotations_first_invalid [OF first assms(2,3)])
  with assms(1)
  show "newProcess api name isRoutable (pre @ withAnnotations api (xs @ item # ys) v # post) = Inl err"
    by (simp add: newProcess_def applyOpts_append)
qed

theorem invalid_applicable_item_aborts_witness:
  "applyOpts [withCmd [''run'']] (initProcess exampleApi ''web'' False)
     = Inr ((initProcess exampleApi ''web'' False :: string process)\<lparr>Cmd := [''run'']\<rparr>)
   \<and> canBeApplied \<lparr>Target = ''Pod'', ProcessName = ''web'', DeploymentVersion = 0, Apply = []\<rparr> ''web'' 1
   \<and> Validate exampleApi \<lparr>Target = ''Pod'', ProcessName = ''web'', DeploymentVersion = 0, Apply = []\<rparr>
       = Some (ErrExternal ''empty apply'')
   \<and> newProcess exampleApi ''web'' False
        [withCmd [''run''],
         withLabels exampleApi
           [\<lparr>Target = ''Service'', ProcessName = [], DeploymentVersion = 0, Apply = [(''tier'', ''a'')]\<rparr>,
            \<lparr>Target = ''Pod'', ProcessName = ''web'', DeploymentVersion = 0, Apply = []\<rparr>] 1,
         withUnits (Some 3)]
       = (Inl (ErrExternal ''empty apply'') :: error + string process)
   \<and> newProcess exampleApi ''web'' False
        [withCmd [''run''],
         withAnnotations exampleApi
           [\<lparr>Target = ''Service'', ProcessName = [], DeploymentVersion = 0, Apply = [(''tier'', ''a'')]\<rparr>,
            \<lparr>Target = ''Pod'', ProcessName = ''web'', DeploymentVersion = 0, Apply = []\<rparr>] 1,
         withUnits (Some 3)]
       = (Inl (ErrExternal ''empty apply'') :: error + string process)"
proof -
  let ?good = "\<lparr>Target = ''Service'', ProcessName = [], DeploymentVersion = 0, Apply = [(''tier'', ''a'')]\<rparr>"
  let ?bad = "\<lparr>Target = ''Pod'', ProcessName = ''web'', DeploymentVersion = 0, Apply = []\<rparr>"
  let ?s = "(initProcess exampleApi ''web'' False :: string process)\<lparr>Cmd := [''run'']\<rparr>"
  have pre: "applyOpts [withCmd [''run'']] (initProcess exampleApi ''web'' False) = Inr ?s"
    by (simp add: withCmd_def)
  have name: "Name ?s = ''web''"
    by (simp add: initProcess_def)
  have app: "canBeApplied ?bad (Name ?s) 1"
    by (simp add: canBeApplied_def name)
  have bad: "Validate exampleApi ?bad = Some (ErrExternal ''empty apply'')"
    by (simp add: exampleApi_def)
  have first: "\<forall>x\<in>set [?good]. canBeApplied x (Name ?s) 1 \<longrightarrow> Validate exampleApi x = None"
    by (simp add: exampleApi_def)
  note t = invalid_applicable_item_aborts [OF pre app bad, of "[?good]" "[]" "[withUnits (Some 3)]"]
  from t [THEN conjunct2, THEN conjunct2, THEN mp, OF first]
  have "newProcess exampleApi ''web'' False
          [withCmd [''run''], withLabels exampleApi [?good, ?bad] 1, withUnits (Some 3)]
        = (Inl (ErrExternal ''empty apply'') :: error + string process)"
    and "newProcess exampleApi ''web'' False
          [withCmd [''run''], withAnnotations exampleApi [?good, ?bad] 1, withUnits (Some 3)]
        = (Inl (ErrExternal ''empty apply'') :: error + string process)"
    by simp_all
  with pre app bad name show ?thesis by simp
qed

text \<open>
  C8 as stated lets every invalid item of the list abort the build. An invalid item
  with the process-name filter \<open>worker\<close> does not abort the build of \<open>web\<close>: the
  build succeeds.
\<close>

theorem invalid_inapplicable_item_counterexample:
  "Validate exampleApi \<lparr>Target = ''Pod'', ProcessName = ''worker'', DeploymentVersion = 0, Apply = []\<rparr>
     = Some (ErrExternal ''empty apply'')
   \<and> newProcess exampleApi ''web'' False
        [withLabels exampleApi
           [\<lparr>Target = ''Pod'', ProcessName = ''worker'', DeploymentVersion = 0, Apply = []\<rparr>] 1]
     = Inr (initProcess exampleApi ''web'' False :: string process)
   \<and> newProcess exampleApi ''web'' False
        [withAnnotations exampleApi
           [\<lparr>Target = ''Pod'', ProcessName = ''worker'', DeploymentVersion = 0, Apply = []\<rparr>] 1]
     = Inr (initProcess exampleApi ''web'' False :: string process)"
  by (simp add: newProcess_def canBeApplied_def exampleApi_def initProcess_def portEnvVariables_def)

subsection \<open>The fresh descriptor\<close>

text \<open>
  C9 (as amended). A descriptor built from a name and \<open>isRoutable = false\<close> with no
  operation is the struct literal of \<open>newProcess\<close>: its container-port and
  service-port lists are empty, its unit count is \<open>DefaultNumberOfUnits\<close>, and the
  label and annotation maps of its three buckets are \<open>nil\<close>, so that no key has a
  value in them. A map is allocated by the first write: after one entry of an item is
  set, the map that the item's target selects holds exactly that entry, and every other
  map is still \<open>nil\<close>.
\<close>

theorem newProcess_no_overlays:
  "newProcess api name False [] = Inr (initProcess api name False)
   \<and> ContainerPorts (initProcess api name isRoutable) = []
   \<and> ServicePorts (initProcess api name isRoutable) = []
   \<and> Units (initProcess api name isRoutable) = DefaultNumberOfUnits api
   \<and> DeploymentMetadata (initProcess api name isRoutable) = \<lparr>Labels = None, Annotations = None\<rparr>
   \<and> ServiceMetadata (initProcess api name isRoutable) = \<lparr>Labels = None, Annotations = None\<rparr>
   \<and> PodMetadata (initProcess api name isRoutable) = \<lparr>Labels = None, Annotations = None\<rparr>
   \<and> mapIndex (Labels (bucketOf bk (initProcess api name isRoutable))) k = None
   \<and> mapIndex (Annotations (bucketOf bk (initProcess api name isRoutable))) k = None
   \<and> Labels (bucketOf bk (setLabel api item (k, x) (initProcess api name isRoutable)))
       = (if targetBucket api (Target item) = Some bk then Some [k \<mapsto> x] else None)
   \<and> Annotations (bucketOf bk (setAnnotation api item (k, x) (initProcess api name isRoutable)))
       = (if targetBucket api (Target item) = Some bk then Some [k \<mapsto> x] else None)
   \<and> Labels (bucketOf bk (setAnnotation api item (k, x) (initProcess api name isRoutable))) = None
   \<and> Annotations (bucketOf bk (setLabel api item (k, x) (initProcess api name isRoutable))) = None"
proof -
  have "newProcess api name False [] = Inr (initProcess api name False)"
    by (simp add: newProcess_def initProcess_def portEnvVariables_def)
  moreover have "Labels (bucketOf bk (setLabel api item (k, x) (initProcess api name isRoutable)))
       = (if targetBucket api (Target item) = Some bk then Some [k \<mapsto> x] else None)"
    by (cases bk) (simp_all add: setLabel_def targetBucket_def initProcess_def mapAssign_def)
  moreover have "Annotations (bucketOf bk (setAnnotation api item (k, x) (initProcess api name isRoutable)))
       = (if targetBucket api (Target item) = Some bk then Some [k \<mapsto> x] else None)"
    by (cases bk) (simp_all add: setAnnotation_def targetBucket_def initProcess_def mapAssign_def)
  moreover have "Labels (bucketOf bk (setAnnotation api item (k, x) (initProcess api name isRoutable))) = None"
    by (cases bk) (simp_all add: setAnnotation_def initProcess_def)
  moreover have "Annotations (bucketOf bk (setLabel api item (k, x) (initProcess api name isRoutable))) = None"
    by (cases bk) (simp_all add: setLabel_def initProcess_def)
  moreover have "mapIndex (Labels (bucketOf bk (initProcess api name isRoutable))) k = None"
    "mapIndex (Annotations (bucketOf bk (initProcess api name isRoutable))) k = None"
    by (cases bk; simp add: initProcess_def mapIndex_def)+
  ultimately show ?thesis
    by (simp add: initProcess_def)
qed

text \<open>
  C9 as stated has every map initialised to an empty map when the descriptor is
  created. The label map of the deployment bucket of a fresh descriptor is \<open>nil\<close>,
  not an allocated empty map; the label overlay allocates it when it writes \<open>tier\<close>.
\<close>

theorem newProcess_nil_maps_counterexample:
  "newProcess exampleApi ''web'' False [] = Inr (initProcess exampleApi ''web'' False :: string process)
   \<and> Labels (DeploymentMetadata (initProcess exampleApi ''web'' False :: string process)) \<noteq> Some Map.empty
   \<and> Labels (DeploymentMetadata (initProcess exampleApi ''web'' False :: string process)) = None
   \<and> withLabels exampleApi
        [\<lparr>Target = ''Deployment'', ProcessName = [], DeploymentVersion = 0, Apply = [(''tier'', ''a'')]\<rparr>] 1
        (initProcess exampleApi ''web'' False)
       = Inr ((initProcess exampleApi ''web'' False :: string process)
            \<lparr>DeploymentMetadata := \<lparr>Labels = Some [''tier'' \<mapsto> ''a''], Annotations = None\<rparr>\<rparr>)"
  by (simp add: newProcess_def initProcess_def portEnvVariables_def canBeApplied_def exampleApi_def
      setLabel_def mapAssign_def)

subsection \<open>The loops keep the routable flag and the environment\<close>

lemma Routable_fold_setLabel [simp]: "Routable (fold (setLabel api l) kvs p) = Routable p"
  by (induction kvs arbitrary: p) (simp_all add: setLabel_def)

lemma Routable_fold_setAnnotation [simp]:
  "Routable (fold (setAnnotation api l) kvs p) = Routable p"
  by (induction kvs arbitrary: p) (simp_all add: setAnnotation_def)

lemma Env_fold_setLabel [simp]: "Env (fold (setLabel api l) kvs p) = Env p"
  by (induction kvs arbitrary: p) (simp_all add: setLabel_def)

lemma Env_fold_setAnnotation [simp]: "Env (fold (setAnnotation api l) kvs p) = Env p"
  by (induction kvs arbitrary: p) (simp_all add: setAnnotation_def)

lemma withLabels_Routable_Env:
  "withLabels api items v p = Inr q \<Longrightarrow> Routable q = Routable p \<and> Env q = Env p"
  by (induction api items v p rule: withLabels.induct) (auto split: if_splits option.splits)

lemma withAnnotations_Routable_Env:
  "withAnnotations api items v p = Inr q \<Longrightarrow> Routable q = Routable p \<and> Env q = Env p"
  by (induction api items v p rule: withAnnotations.induct) (auto split: if_splits option.splits)

lemma keepsRoutable_withLabels: "keepsRoutable (withLabels api items v)"
  by (simp add: keepsRoutable_def withLabels_Routable_Env)

lemma keepsRoutable_withAnnotations: "keepsRoutable (withAnnotations api items v)"
  by (simp add: keepsRoutable_def withAnnotations_Routable_Env)

lemma keepsEnv_withLabels: "keepsEnv (withLabels api items v)"
  by (simp add: keepsEnv_def withLabels_Routable_Env)

lemma keepsEnv_withAnnotations: "keepsEnv (withAnnotations api items v)"
  by (simp add: keepsEnv_def withAnnotations_Routable_Env)

subsection \<open>Merge order of labels and annotations\<close>

text \<open>
  C5. Take a list of items in which the item \<open>b\<close> is applicable, targets the bucket
  \<open>bk\<close> and binds the key \<open>k\<close> to \<open>x\<close>, and in which no applicable item after
  \<open>b\<close> with the same bucket binds \<open>k\<close>. When every applicable item of the list is
  valid, the label overlay succeeds and the label map of \<open>bk\<close> in its result binds
  \<open>k\<close> to \<open>x\<close>, and the annotation overlay succeeds and the annotation map of
  \<open>bk\<close> in its result binds \<open>k\<close> to \<open>x\<close>, whatever the items before \<open>b\<close>
  bind: of two items that share a key the later one decides, and a key that only one
  item binds keeps that item's value. The same holds of every result with which either
  overlay returns. For the items \<open>{tier: a, app: shop}\<close> and \<open>{tier: b}\<close> on the
  deployment, both overlays succeed with \<open>tier = b\<close> and \<open>app = shop\<close>, as labels
  and as annotations.
\<close>

theorem last_applied_wins:
  assumes "canBeApplied b (Name p) v"
    and "targetBucket api (Target b) = Some bk"
    and "(k, x) \<in> set (Apply b)"
    and "distinct (map fst (Apply b))"
    and "\<forall>c\<in>set ys. canBeApplied c (Name p) v \<and> targetBucket api (Target c) = Some bk
           \<longrightarrow> k \<notin> fst ` set (Apply c)"
  shows "((\<forall>i\<in>set (xs @ b # ys). canBeApplied i (Name p) v \<longrightarrow> Validate api i = None)
            \<longrightarrow> (\<exists>q. withLabels api (xs @ b # ys) v p = Inr q
                      \<and> mapIndex (Labels (bucketOf bk q)) k = Some x)
              \<and> (\<exists>q. withAnnotations api (xs @ b # ys) v p = Inr q
                      \<and> mapIndex (Annotations (bucketOf bk q)) k = Some x))
       \<and> (withLabels api (xs @ b # ys) v p = Inr q
            \<longrightarrow> mapIndex (Labels (bucketOf bk q)) k = Some x)
       \<and> (withAnnotations api (xs @ b # ys) v p = Inr q
            \<longrightarrow> mapIndex (Annotations (bucketOf bk q)) k = Some x)"
proof -
  have labels: "mapIndex (Labels (bucketOf bk r)) k = Some x"
    if run: "withLabels api (xs @ b # ys) v p = Inr r" for r
  proof -
    from run obtain s where s: "withLabels api xs v p = Inr s"
      and rest: "withLabels api (b # ys) v s = Inr r"
      by (auto simp: withLabels_append split: sum.splits)
    have name: "Name s = Name p"
      by (rule withLabels_Name [OF s])
    let ?s' = "fold (setLabel api b) (Apply b) s"
    from rest assms(1) name have tail: "withLabels api ys v ?s' = Inr r"
      by (auto split: option.splits)
    from assms(5) name
    have "\<forall>c\<in>set ys. canBeApplied c (Name ?s') v \<and> targetBucket api (Target c) = Some bk
        \<longrightarrow> k \<notin> fst ` set (Apply c)"
      by simp
    from withLabels_unaffected [OF tail this] show ?thesis
      by (simp add: label_fold_hit [OF assms(2,4,3)])
  qed
  have annotations: "mapIndex (Annotations (bucketOf bk r)) k = Some x"
    if run: "withAnnotations api (xs @ b # ys) v p = Inr r" for r
  proof -
    from run obtain s where s: "withAnnotations api xs v p = Inr s"
      and rest: "withAnnotations api (b # ys) v s = Inr r"
      by (auto simp: withAnnotations_append split: sum.splits)
    have name: "Name s = Name p"
      by (rule withAnnotations_Name [OF s])
    let ?s' = "fold (setAnnotation api b) (Apply b) s"
    from rest assms(1) name have tail: "withAnnotations api ys v ?s' = Inr r"
      by (auto split: option.splits)
    from assms(5) name
    have "\<forall>c\<in>set ys. canBeApplied c (Name ?s') v \<and> targetBucket api (Target c) = Some bk
        \<longrightarrow> k \<notin> fst ` set (Apply c)"
      by simp
    from withAnnotations_unaffected [OF tail this] show ?thesis
      by (simp add: annotation_fold_hit [OF assms(2,4,3)])
  qed
  have total: "(\<exists>r. withLabels api (xs @ b # ys) v p = Inr r
                  \<and> mapIndex (Labels (bucketOf bk r)) k = Some x)
             \<and> (\<exists>r. withAnnotations api (xs @ b # ys) v p = Inr r
                  \<and> mapIndex (Annotations (bucketOf bk r)) k = Some x)"
    if valid: "\<forall>i\<in>set (xs @ b # ys). canBeApplied i (Name p) v \<longrightarrow> Validate api i = None"
  proof -
    from withLabels_valid [OF valid] obtain r where r: "withLabels api (xs @ b # ys) v p = Inr r" ..
    from withAnnotations_valid [OF valid]
    obtain r' where r': "withAnnotations api (xs @ b # ys) v p = Inr r'" ..
    from r labels [OF r] r' annotations [OF r'] show ?thesis by blast
  qed
  from total labels annotations show ?thesis by blast
qed

theorem last_applied_wins_witness:
  "withLabels exampleApi
      [\<lparr>Target = ''Deployment'', ProcessName = [], DeploymentVersion = 0,
         Apply = [(''tier'', ''a''), (''app'', ''shop'')]\<rparr>,
       \<lparr>Target = ''Deployment'', ProcessName = [], DeploymentVersion = 0,
         Apply = [(''tier'', ''b'')]\<rparr>] 1
      (initProcess exampleApi ''web'' False)
     = Inr ((initProcess exampleApi ''web'' False :: string process)
          \<lparr>DeploymentMetadata :=
             \<lparr>Labels = Some [''tier'' \<mapsto> ''a'', ''app'' \<mapsto> ''shop'', ''tier'' \<mapsto> ''b''],
              Annotations = None\<rparr>\<rparr>)
   \<and> mapIndex (Labels (DeploymentMetadata ((initProcess exampleApi ''web'' False :: string process)
          \<lparr>DeploymentMetadata :=
             \<lparr>Labels = Some [''tier'' \<mapsto> ''a'', ''app'' \<mapsto> ''shop'', ''tier'' \<mapsto> ''b''],
              Annotations = None\<rparr>\<rparr>))) ''tier'' = Some ''b''
   \<and> mapIndex (Labels (DeploymentMetadata ((initProcess exampleApi ''web'' False :: string process)
          \<lparr>DeploymentMetadata :=
             \<lparr>Labels = Some [''tier'' \<mapsto> ''a'', ''app'' \<mapsto> ''shop'', ''tier'' \<mapsto> ''b''],
              Annotations = None\<rparr>\<rparr>))) ''app'' = Some ''shop''
   \<and> withAnnotations exampleApi
      [\<lparr>Target = ''Deployment'', ProcessName = [], DeploymentVersion = 0,
         Apply = [(''tier'', ''a''), (''app'', ''shop'')]\<rparr>,
       \<lparr>Target = ''Deployment'', ProcessName = [], DeploymentVersion = 0,
         Apply = [(''tier'', ''b'')]\<rparr>] 1
      (initProcess exampleApi ''web'' False)
     = Inr ((initProcess exampleApi ''web'' False :: string process)
          \<lparr>DeploymentMetadata :=
             \<lparr>Labels = None,
              Annotations = Some [''tier'' \<mapsto> ''a'', ''app'' \<mapsto> ''shop'', ''tier'' \<mapsto> ''b'']\<rparr>\<rparr>)
   \<and> mapIndex (Annotations (DeploymentMetadata ((initProcess exampleApi ''web'' False :: string process)
          \<lparr>DeploymentMetadata :=
             \<lparr>Labels = None,
              Annotations = Some [''tier'' \<mapsto> ''a'', ''app'' \<mapsto> ''shop'', ''tier'' \<mapsto> ''b'']\<rparr>\<rparr>)))
        ''tier'' = Some ''b''
   \<and> mapIndex (Annotations (DeploymentMetadata ((initProcess exampleApi ''web'' False :: string process)
          \<lparr>DeploymentMetadata :=
             \<lparr>Labels = None,
              Annotations = Some [''tier'' \<mapsto> ''a'', ''app'' \<mapsto> ''shop'', ''tier'' \<mapsto> ''b'']\<rparr>\<rparr>)))
        ''app'' = Some ''shop''"
proof -
  let ?a = "\<lparr>Target = ''Deployment'', ProcessName = [], DeploymentVersion = 0,
         Apply = [(''tier'', ''a''), (''app'', ''shop'')]\<rparr>"
  let ?b = "\<lparr>Target = ''Deployment'', ProcessName = [], DeploymentVersion = 0,
         Apply = [(''tier'', ''b'')]\<rparr>"
  let ?p = "initProcess exampleApi ''web'' False :: string process"
  let ?ql = "?p\<lparr>DeploymentMetadata :=
             \<lparr>Labels = Some [''tier'' \<mapsto> ''a'', ''app'' \<mapsto> ''shop'', ''tier'' \<mapsto> ''b''],
              Annotations = None\<rparr>\<rparr>"
  let ?qa = "?p\<lparr>DeploymentMetadata :=
             \<lparr>Labels = None,
              Annotations = Some [''tier'' \<mapsto> ''a'', ''app'' \<mapsto> ''shop'', ''tier'' \<mapsto> ''b'']\<rparr>\<rparr>"
  have runl: "withLabels exampleApi [?a, ?b] 1 ?p = Inr ?ql"
    by (simp add: canBeApplied_def exampleApi_def initProcess_def setLabel_def mapAssign_def)
  have runa: "withAnnotations exampleApi [?a, ?b] 1 ?p = Inr ?qa"
    by (simp add: canBeApplied_def exampleApi_def initProcess_def setAnnotation_def mapAssign_def)
  have bucket: "targetBucket exampleApi ''Deployment'' = Some DeploymentBucket"
    by (simp add: targetBucket_def exampleApi_def)
  have valid: "\<forall>i\<in>set [?a, ?b]. canBeApplied i (Name ?p) 1 \<longrightarrow> Validate exampleApi i = None"
    by (simp add: exampleApi_def)
  have appl: "canBeApplied ?a (Name ?p) 1" "canBeApplied ?b (Name ?p) 1"
    by (simp_all add: canBeApplied_def)
  have later: "\<forall>c\<in>set [?b]. canBeApplied c (Name ?p) 1
        \<and> targetBucket exampleApi (Target c) = Some DeploymentBucket
      \<longrightarrow> ''app'' \<notin> fst ` set (Apply c)"
    by simp
  have tier: "(\<exists>q. withLabels exampleApi [?a, ?b] 1 ?p = Inr q
                \<and> mapIndex (Labels (bucketOf DeploymentBucket q)) ''tier'' = Some ''b'')
            \<and> (\<exists>q. withAnnotations exampleApi [?a, ?b] 1 ?p = Inr q
                \<and> mapIndex (Annotations (bucketOf DeploymentBucket q)) ''tier'' = Some ''b'')"
    using last_applied_wins [of ?b ?p 1 exampleApi DeploymentBucket "''tier''" "''b''" "[]" "[?a]",
        THEN conjunct1, THEN mp] appl(2) bucket valid
    by simp
  have app: "(\<exists>q. withLabels exampleApi [?a, ?b] 1 ?p = Inr q
                \<and> mapIndex (Labels (bucketOf DeploymentBucket q)) ''app'' = Some ''shop'')
            \<and> (\<exists>q. withAnnotations exampleApi [?a, ?b] 1 ?p = Inr q
                \<and> mapIndex (Annotations (bucketOf DeploymentBucket q)) ''app'' = Some ''shop'')"
    using last_applied_wins [of ?a ?p 1 exampleApi DeploymentBucket "''app''" "''shop''" "[?b]" "[]",
        THEN conjunct1, THEN mp] appl(1) bucket valid later
    by simp
  from tier app runl runa show ?thesis
    by simp
qed

end
